theory Spec2Isabelle
  imports Complex_Main "HOL-Library.Sublist"
begin

section \<open>Python strings\<close>

text \<open>
  A Python \<open>str\<close> is modelled as a HOL \<^typ>\<open>string\<close>; a character stands for a code
  point below 256. Only the string operations that the scripts call are modelled:
  \<open>find\<close>, slicing, \<open>strip\<close>, \<open>join\<close> and \<open>rfind\<close>.
\<close>

text \<open>
  \<open>s.find(sub, start)\<close> for \<open>0 \<le> start\<close>: the lowest index \<open>i \<ge> start\<close> with
  \<open>s[i:i+len(sub)] == sub\<close>, or \<open>-1\<close>.
\<close>

function find_from :: "'a list \<Rightarrow> 'a list \<Rightarrow> nat \<Rightarrow> int" where
  "find_from s sub start =
     (if length s < start + length sub then - 1
      else if take (length sub) (drop start s) = sub then int start
      else find_from s sub (Suc start))"
  by pat_completeness auto
termination
  by (relation "measure (\<lambda>(s, sub, start). Suc (length s) - start)") auto

declare find_from.simps [simp del]

text \<open>A negative \<open>start\<close> counts from the end and is clamped at 0, as Python does.\<close>

definition py_find :: "string \<Rightarrow> string \<Rightarrow> int \<Rightarrow> int" where
  "py_find s sub start =
     find_from s sub (nat (if start < 0 then max 0 (int (length s) + start) else start))"

definition clamp_index :: "nat \<Rightarrow> int \<Rightarrow> nat" where
  "clamp_index n i = (if i < 0 then nat (max 0 (int n + i)) else min (nat i) n)"

text \<open>\<open>s[i:j]\<close> and \<open>s[i:]\<close>.\<close>

definition py_slice :: "'a list \<Rightarrow> int \<Rightarrow> int \<Rightarrow> 'a list" where
  "py_slice s i j =
     (let a = clamp_index (length s) i; b = clamp_index (length s) j
      in take (b - a) (drop a s))"

definition py_slice_from :: "'a list \<Rightarrow> int \<Rightarrow> 'a list" where
  "py_slice_from s i = drop (clamp_index (length s) i) s"

text \<open>
  \<open>str.isspace\<close> on the code points below 256: TAB, LF, VT, FF, CR, the four separators
  FS, GS, RS and US, the space, NEL and the no-break space.
\<close>

definition isspace :: "char \<Rightarrow> bool" where
  "isspace c = ((of_char c :: nat) \<in> {9, 10, 11, 12, 13, 28, 29, 30, 31, 32, 133, 160})"

definition py_strip :: "string \<Rightarrow> string" where
  "py_strip s = rev (dropWhile isspace (rev (dropWhile isspace s)))"

fun py_join :: "string \<Rightarrow> string list \<Rightarrow> string" where
  "py_join sep [] = []"
| "py_join sep [x] = x"
| "py_join sep (x # y # xs) = x @ sep @ py_join sep (y # xs)"

text \<open>\<open>s.rfind(c)\<close> for a single character: the index of its last occurrence, or \<open>-1\<close>.\<close>

definition py_rfind :: "string \<Rightarrow> char \<Rightarrow> int" where
  "py_rfind s c =
     (case dropWhile (\<lambda>x. x \<noteq> c) (rev s) of [] \<Rightarrow> - 1 | _ # front \<Rightarrow> int (length front))"

text \<open>\<open>xs[i]\<close> with Python's negative indices; every call below is guarded to be in range.\<close>

definition py_nth :: "'a list \<Rightarrow> int \<Rightarrow> 'a" where
  "py_nth xs i = (if i < 0 then xs ! nat (int (length xs) + i) else xs ! nat i)"

text \<open>\<open>sub\<close> occurs in \<open>s\<close> at index \<open>j\<close>; used to state where a marker lies.\<close>

definition occurs_at :: "'a list \<Rightarrow> 'a list \<Rightarrow> nat \<Rightarrow> bool" where
  "occurs_at s sub j = (j + length sub \<le> length s \<and> take (length sub) (drop j s) = sub)"

section \<open>Values decoded from YAML\<close>

text \<open>
  \<open>yaml.safe_load\<close> returns plain Python values. The model has the null value, booleans,
  integers, strings, lists and dicts (an association list, keys distinct as in a dict);
  floats, timestamps and binary values are left out. The decoder itself belongs to the
  PyYAML library and is a parameter \<open>safe_load\<close> of the functions that call it: it
  either raises \<open>yaml.YAMLError\<close> or returns a value.
\<close>

datatype yaml_value =
    YNull
  | YBool bool
  | YInt int
  | YStr string
  | YList "yaml_value list"
  | YMap "(yaml_value \<times> yaml_value) list"

datatype yaml_error = YAMLError

datatype error = OSError | AttributeError | TypeError

text \<open>Truth value of a Python object, as tested by \<open>if x:\<close>.\<close>

fun truthy :: "yaml_value \<Rightarrow> bool" where
  "truthy YNull = False"
| "truthy (YBool b) = b"
| "truthy (YInt n) = (n \<noteq> 0)"
| "truthy (YStr s) = (s \<noteq> [])"
| "truthy (YList xs) = (xs \<noteq> [])"
| "truthy (YMap kvs) = (kvs \<noteq> [])"

definition digit_char :: "nat \<Rightarrow> char" where
  "digit_char d = char_of (48 + d)"

fun str_of_nat :: "nat \<Rightarrow> string" where
  "str_of_nat n =
     (if n < 10 then [digit_char n] else str_of_nat (n div 10) @ [digit_char (n mod 10)])"

declare str_of_nat.simps [simp del]

definition str_of_int :: "int \<Rightarrow> string" where
  "str_of_int i = (if i < 0 then CHR ''-'' # str_of_nat (nat (- i)) else str_of_nat (nat i))"

text \<open>
  \<open>str(x)\<close>, which an f-string applies to each interpolated value. The text of a list or
  a dict is Python's \<open>repr\<close> of it, a parameter \<open>py_repr\<close>.
\<close>

fun py_str :: "(yaml_value \<Rightarrow> string) \<Rightarrow> yaml_value \<Rightarrow> string" where
  "py_str py_repr YNull = ''None''"
| "py_str py_repr (YBool b) = (if b then ''True'' else ''False'')"
| "py_str py_repr (YInt n) = str_of_int n"
| "py_str py_repr (YStr s) = s"
| "py_str py_repr (YList xs) = py_repr (YList xs)"
| "py_str py_repr (YMap kvs) = py_repr (YMap kvs)"

text \<open>
  \<open>for x in v\<close>: a list yields its elements, a string its characters, a dict its keys;
  the other values are not iterable and raise \<open>TypeError\<close>.
\<close>

fun py_iter :: "yaml_value \<Rightarrow> error + yaml_value list" where
  "py_iter (YList xs) = Inr xs"
| "py_iter (YStr s) = Inr (map (\<lambda>c. YStr [c]) s)"
| "py_iter (YMap kvs) = Inr (map fst kvs)"
| "py_iter YNull = Inl TypeError"
| "py_iter (YBool b) = Inl TypeError"
| "py_iter (YInt n) = Inl TypeError"

text \<open>\<open>d.get(key, default)\<close> with a string key.\<close>

definition dict_get :: "(yaml_value \<times> yaml_value) list \<Rightarrow> string \<Rightarrow> yaml_value \<Rightarrow> yaml_value" where
  "dict_get d k dflt = (case map_of d (YStr k) of None \<Rightarrow> dflt | Some v \<Rightarrow> v)"

section \<open>Paths\<close>

text \<open>
  A \<open>pathlib.Path\<close> (POSIX flavour) is its root, which is empty for a relative path and
  \<open>/\<close> or \<open>//\<close> otherwise, and the list of its names. \<open>stem\<close> follows the definition of
  Python 3.4 to 3.13.
\<close>

record path =
  root :: string
  names :: "string list"

definition parts :: "path \<Rightarrow> string list" where
  "parts p = (if root p = [] then [] else [root p]) @ names p"

definition parent :: "path \<Rightarrow> path" where
  "parent p = p\<lparr>names := butlast (names p)\<rparr>"

definition path_str :: "path \<Rightarrow> string" where
  "path_str p =
     (if root p = [] \<and> names p = [] then ''.'' else root p @ py_join ''/'' (names p))"

definition name :: "path \<Rightarrow> string" where
  "name p = (if names p = [] then [] else last (names p))"

definition stem :: "path \<Rightarrow> string" where
  "stem p =
     (let i = py_rfind (name p) CHR ''.''
      in if 0 < i \<and> i < int (length (name p)) - 1 then take (nat i) (name p) else name p)"

section \<open>Request building (\<open>batch_pdf_processor_claude.py\<close>)\<close>

definition parse_source_from_path :: "path \<Rightarrow> string" where
  "parse_source_from_path pdf_path =
     (if length (parts pdf_path) < 5 then path_str (parent pdf_path)
      else
        let folder = py_nth (parts pdf_path) (- 2);
            box = py_nth (parts pdf_path) (- 3);
            collection = py_nth (parts pdf_path) (- 4);
            archive = py_nth (parts pdf_path) (- 5)
        in folder @ '', '' @ box @ '', '' @ collection @ '', '' @ archive)"

definition system_prompt :: string where
  \<open>system_prompt =
     ''You are a precise historical document analyst. Your task is to:\<newline>'' @
     ''\<newline>'' @
     ''1. Extract metadata and create a brief overview of the document\<newline>'' @
     ''2. Transcribe the document EXACTLY as written, preserving spelling, punctuation, and formatting\<newline>'' @
     ''3. Extract entities (people, organizations, locations, themes) that are EXPLICITLY mentioned\<newline>'' @
     ''4. Never invent, infer, or hallucinate information not present in the source\<newline>'' @
     ''5. For multi-page documents, insert HTML comments to mark page breaks\<newline>'' @
     ''\<newline>'' @
     ''CRITICAL RULES:\<newline>'' @
     ''- Only include entities you can directly cite from the document\<newline>'' @
     ''- If uncertain about an entity, DO NOT include it\<newline>'' @
     ''- Preserve original spellings and phrasings\<newline>'' @
     ''- Mark unclear text as [illegible] rather than guessing\<newline>'' @
     ''- Do not modernize or correct historical spelling/grammar\<newline>'' @
     ''- Do not add interpretive commentary beyond the brief overview\<newline>'' @
     ''- For page breaks, insert: <!-- page 1 -->, <!-- page 2 -->, etc.\<newline>'' @
     ''- The overview should be 2-3 sentences summarizing the document's content\<newline>'' @
     ''\<newline>'' @
     ''Output format must be valid YAML that can be parsed programmatically.''\<close>

definition prompt_before_source :: string where
  \<open>prompt_before_source =
     ''Analyze this historical document and provide:\<newline>'' @
     ''\<newline>'' @
     ''1. METADATA: Structured information in YAML format\<newline>'' @
     ''2. OVERVIEW: A brief 2-3 sentence summary of the document\<newline>'' @
     ''3. TRANSCRIPTION: Exact text from the document\<newline>'' @
     ''\<newline>'' @
     ''Output ONLY valid YAML in this exact structure:\<newline>'' @
     ''\<newline>'' @
     ''```yaml\<newline>'' @
     ''title: "Document title or first line if untitled"\<newline>'' @
     ''creator: "[[Author Name]]"  # Use wiki-link format if author identified, otherwise empty string\<newline>'' @
     ''publication: "Publication name if present, otherwise empty string"\<newline>'' @
     ''source: "''\<close>

definition prompt_after_source :: string where
  \<open>prompt_after_source =
     ''"\<newline>'' @
     ''date: "Date in YYYY-MM-DD format if present, otherwise empty string"\<newline>'' @
     ''people:\<newline>'' @
     ''  - "[[Person Name]]"  # Use wiki-link format, only if explicitly mentioned\<newline>'' @
     ''organization:\<newline>'' @
     ''  - "[[Organization Name]]"  # Use wiki-link format, only if explicitly mentioned\<newline>'' @
     ''locations:\<newline>'' @
     ''  - "[[Location Name]]"  # Use wiki-link format, only if explicitly mentioned\<newline>'' @
     ''themes:\<newline>'' @
     ''  - "[[Theme]]"  # Major topics/themes, use wiki-link format\<newline>'' @
     ''overview: "Brief 2-3 sentence summary of the document's content and significance"\<newline>'' @
     ''```\<newline>'' @
     ''\<newline>'' @
     ''Then provide the transcription in markdown format.\<newline>'' @
     ''\<newline>'' @
     ''IMPORTANT FOR MULTI-PAGE DOCUMENTS:\<newline>'' @
     ''- Insert <!-- page 1 --> at the start of the first page\<newline>'' @
     ''- Insert <!-- page 2 --> at the start of the second page, etc.\<newline>'' @
     ''- Place the comment on its own line before the page content\<newline>'' @
     ''\<newline>'' @
     ''Remember:\<newline>'' @
     ''- Only include entities EXPLICITLY present in the document\<newline>'' @
     ''- Use [[wiki-link]] format for all entities\<newline>'' @
     ''- Preserve original text exactly\<newline>'' @
     ''- Mark unclear sections as [illegible]\<newline>'' @
     ''- Add page break comments for multi-page documents\<newline>'' @
     ''- The overview should be concise and factual, not interpretive\<newline>''\<close>

definition create_analysis_prompt :: "string \<Rightarrow> string \<Rightarrow> string" where
  "create_analysis_prompt file_path source = prompt_before_source @ source @ prompt_after_source"

text \<open>\<open>base64.standard_b64encode\<close>; a file's contents are a list of bytes.\<close>

definition b64_char :: "nat \<Rightarrow> char" where
  "b64_char n =
     ''ABCDEFGHIJKLMNOPQRSTUVWXYZabcdefghijklmnopqrstuvwxyz0123456789+/'' ! (n mod 64)"

fun standard_b64encode :: "char list \<Rightarrow> string" where
  "standard_b64encode [] = []"
| "standard_b64encode [a] =
     (let n = of_char a * 65536
      in [b64_char (n div 262144), b64_char (n div 4096), CHR ''='', CHR ''=''])"
| "standard_b64encode [a, b] =
     (let n = of_char a * 65536 + of_char b * 256
      in [b64_char (n div 262144), b64_char (n div 4096), b64_char (n div 64), CHR ''=''])"
| "standard_b64encode (a # b # c # rest) =
     (let n = of_char a * 65536 + of_char b * 256 + of_char c
      in [b64_char (n div 262144), b64_char (n div 4096), b64_char (n div 64), b64_char n]
         @ standard_b64encode rest)"

text \<open>
  The files that can be read are a map from paths to contents; opening a path outside
  its domain raises \<open>OSError\<close>.
\<close>

definition encode_pdf :: "(path \<rightharpoonup> char list) \<Rightarrow> path \<Rightarrow> error + string" where
  "encode_pdf fs pdf_path =
     (case fs pdf_path of None \<Rightarrow> Inl OSError | Some bytes \<Rightarrow> Inr (standard_b64encode bytes))"

text \<open>
  One request of the batch. The literal tags of the dictionary (\<open>role\<close>, the two \<open>type\<close>
  fields, the media type) are the same in every request and are not fields here.
\<close>

record request =
  req_custom_id :: string
  req_model :: string
  req_max_tokens :: nat
  req_temperature :: rat
  req_system :: string
  req_document_data :: string
  req_text :: string

fun prepare_batch_requests ::
  "string \<Rightarrow> (path \<rightharpoonup> char list) \<Rightarrow> path list \<Rightarrow> error + request list" where
  "prepare_batch_requests model fs [] = Inr []"
| "prepare_batch_requests model fs (pdf_path # pdf_files) =
     (case encode_pdf fs pdf_path of
        Inl e \<Rightarrow> Inl e
      | Inr pdf_base64 \<Rightarrow>
          let source = parse_source_from_path pdf_path;
              request = \<lparr>req_custom_id = stem pdf_path,
                         req_model = model,
                         req_max_tokens = 8192,
                         req_temperature = 1 / 10,
                         req_system = system_prompt,
                         req_document_data = pdf_base64,
                         req_text = create_analysis_prompt (path_str pdf_path) source\<rparr>
          in (case prepare_batch_requests model fs pdf_files of
                Inl e \<Rightarrow> Inl e
              | Inr requests \<Rightarrow> Inr (request # requests)))"

section \<open>Splitting a response\<close>

definition parse_claude_response ::
  "(string \<Rightarrow> yaml_error + yaml_value) \<Rightarrow> string \<Rightarrow> yaml_value \<times> string" where
  "parse_claude_response safe_load response_text =
     (let yaml_start = py_find response_text ''```yaml'' 0;
          yaml_end = py_find response_text ''```'' (yaml_start + 7)
      in if yaml_start = - 1 \<or> yaml_end = - 1 then (YMap [], response_text)
         else
           let yaml_content = py_strip (py_slice response_text (yaml_start + 7) yaml_end);
               metadata = (case safe_load yaml_content of Inl e \<Rightarrow> YMap [] | Inr v \<Rightarrow> v);
               transcription = py_strip (py_slice_from response_text (yaml_end + 3))
           in (metadata, transcription))"

section \<open>Rendering a document\<close>

text \<open>
  The block \<open>if v: for x in v: frontmatter_lines.append(f'  - {x}')\<close>, which the source
  repeats for each of the four list fields: the lines it appends.
\<close>

definition item_lines :: "(yaml_value \<Rightarrow> string) \<Rightarrow> yaml_value \<Rightarrow> error + string list" where
  "item_lines py_repr v =
     (if truthy v
      then (case py_iter v of
              Inl e \<Rightarrow> Inl e
            | Inr xs \<Rightarrow> Inr (map (\<lambda>x. ''  - '' @ py_str py_repr x) xs))
      else Inr [])"

text \<open>
  The list \<open>frontmatter_lines\<close> of \<open>create_obsidian_document\<close>; \<open>added\<close> is the reading of
  the clock, \<open>datetime.now().strftime('%B %d, %Y')\<close>.
\<close>

definition frontmatter_lines ::
  "(yaml_value \<Rightarrow> string) \<Rightarrow> string \<Rightarrow> (yaml_value \<times> yaml_value) list \<Rightarrow> error + string list" where
  "frontmatter_lines py_repr added metadata =
     (let title = dict_get metadata ''title'' (YStr []);
          creator = dict_get metadata ''creator'' (YStr []);
          publication = dict_get metadata ''publication'' (YStr []);
          source = dict_get metadata ''source'' (YStr []);
          date = dict_get metadata ''date'' (YStr []);
          people = dict_get metadata ''people'' (YList []);
          organization = dict_get metadata ''organization'' (YList []);
          locations = dict_get metadata ''locations'' (YList []);
          themes = dict_get metadata ''themes'' (YList []);
          lines0 =
            [''---'',
             ''title: '' @ py_str py_repr title,
             (if truthy creator then ''creator: '' @ py_str py_repr creator else ''creator:''),
             (if truthy publication then ''publication: '' @ py_str py_repr publication
              else ''publication:''),
             ''source: '' @ py_str py_repr source,
             (if truthy date then ''date: '' @ py_str py_repr date else ''date:''),
             ''people:'']
      in case item_lines py_repr people of
           Inl e \<Rightarrow> Inl e
         | Inr people_lines \<Rightarrow>
        (case item_lines py_repr organization of
           Inl e \<Rightarrow> Inl e
         | Inr organization_lines \<Rightarrow>
        (case item_lines py_repr locations of
           Inl e \<Rightarrow> Inl e
         | Inr locations_lines \<Rightarrow>
        (case item_lines py_repr themes of
           Inl e \<Rightarrow> Inl e
         | Inr themes_lines \<Rightarrow>
             Inr (lines0 @ people_lines
                  @ [''organization:''] @ organization_lines
                  @ [''locations:''] @ locations_lines
                  @ [''themes:''] @ themes_lines
                  @ [''tags:'', ''  - to-do'', ''  - source/primary'', ''added: '' @ added,
                     ''---\<newline>''])))))"

text \<open>
  The text written to the output file. A \<open>metadata\<close> that is not a dict has no \<open>get\<close>
  and raises \<open>AttributeError\<close>.
\<close>

definition document_text ::
  "(yaml_value \<Rightarrow> string) \<Rightarrow> string \<Rightarrow> yaml_value \<Rightarrow> string \<Rightarrow> string \<Rightarrow> error + string" where
  "document_text py_repr added metadata transcription pdf_filename =
     (case metadata of
        YMap d \<Rightarrow>
          (case frontmatter_lines py_repr added d of
             Inl e \<Rightarrow> Inl e
           | Inr lines \<Rightarrow>
               let overview = dict_get d ''overview'' (YStr []);
                   content_parts =
                     [py_join ''\<newline>'' lines,
                      ''## Overview\<newline>'',
                      (if truthy overview then py_str py_repr overview @ ''\<newline>''
                       else ''\<newline>''),
                      ''## Images\<newline>'',
                      ''![['' @ pdf_filename @ '']]\<newline>'',
                      ''## Notes\<newline>\<newline>'',
                      ''## Connections\<newline>\<newline>'',
                      ''## Transcription\<newline>'',
                      transcription]
               in Inr (py_join ''\<newline>'' content_parts))
      | _ \<Rightarrow> Inl AttributeError)"

text \<open>
  The output files are a map from file names to their text; \<open>write_text\<close> is the last
  step, so a call that raises leaves the files as they were.
\<close>

definition create_obsidian_document ::
  "(yaml_value \<Rightarrow> string) \<Rightarrow> string \<Rightarrow> yaml_value \<Rightarrow> string \<Rightarrow> string \<Rightarrow> string \<Rightarrow>
   (string \<rightharpoonup> string) \<Rightarrow> error + (string \<rightharpoonup> string)" where
  "create_obsidian_document py_repr added metadata transcription output_path pdf_filename files =
     (case document_text py_repr added metadata transcription pdf_filename of
        Inl e \<Rightarrow> Inl e
      | Inr txt \<Rightarrow> Inr (files(output_path \<mapsto> txt)))"

section \<open>Processing the results of a batch\<close>

text \<open>
  A result as \<open>model_dump\<close> gives it: the identifier and a tagged \<open>result\<close>. \<open>OtherResult\<close>
  carries a type other than \<open>succeeded\<close> and \<open>errored\<close> (\<open>canceled\<close>, \<open>expired\<close>).
\<close>

datatype content_block = TextBlock string | OtherBlock string

datatype result_body =
    Succeeded "content_block list"
  | Errored string string
  | OtherResult string

record batch_result =
  custom_id :: "string option"
  result :: result_body

record batch_state =
  succeeded :: nat
  failed :: nat
  files :: "string \<rightharpoonup> string"

text \<open>
  The body of the loop over the results. \<open>clock\<close> gives the date string that the item
  processed after \<open>n\<close> others reads; the name of an output file is relative to the output
  directory. What the loop prints is not modelled.
\<close>

definition process_result ::
  "(string \<Rightarrow> yaml_error + yaml_value) \<Rightarrow> (yaml_value \<Rightarrow> string) \<Rightarrow> (nat \<Rightarrow> string) \<Rightarrow>
   batch_state \<Rightarrow> batch_result \<Rightarrow> batch_state" where
  "process_result safe_load py_repr clock st r =
     (let cid = (case custom_id r of None \<Rightarrow> ''unknown'' | Some c \<Rightarrow> c)
      in case result r of
           Succeeded content \<Rightarrow>
             if content = [] then st\<lparr>failed := failed st + 1\<rparr>
             else
               let response_text =
                     foldl (\<lambda>acc block. case block of TextBlock t \<Rightarrow> acc @ t | OtherBlock _ \<Rightarrow> acc)
                       [] content;
                   (metadata, transcription) = parse_claude_response safe_load response_text;
                   output_path = cid @ ''.md'';
                   pdf_filename = cid @ ''.pdf''
               in (case create_obsidian_document py_repr (clock (succeeded st + failed st))
                          metadata transcription output_path pdf_filename (files st) of
                     Inr files' \<Rightarrow> st\<lparr>files := files', succeeded := succeeded st + 1\<rparr>
                   | Inl e \<Rightarrow> st\<lparr>failed := failed st + 1\<rparr>)
         | Errored etype emessage \<Rightarrow> st\<lparr>failed := failed st + 1\<rparr>
         | OtherResult t \<Rightarrow> st\<lparr>failed := failed st + 1\<rparr>)"

definition process_batch_results ::
  "(string \<Rightarrow> yaml_error + yaml_value) \<Rightarrow> (yaml_value \<Rightarrow> string) \<Rightarrow> (nat \<Rightarrow> string) \<Rightarrow>
   batch_result list \<Rightarrow> (string \<rightharpoonup> string) \<Rightarrow> batch_state" where
  "process_batch_results safe_load py_repr clock results files0 =
     foldl (process_result safe_load py_repr clock)
       \<lparr>succeeded = 0, failed = 0, files = files0\<rparr> results"

section \<open>Notions used to state the properties of the header\<close>

text \<open>
  The values over which \<open>for x in v\<close> raises although \<open>if v\<close> lets them through:
  \<open>True\<close> and the integers other than 0.
\<close>

definition not_iterable :: "yaml_value \<Rightarrow> bool" where
  "not_iterable v = (case v of YBool b \<Rightarrow> b | YInt n \<Rightarrow> n \<noteq> 0 | _ \<Rightarrow> False)"


text \<open>The line \<open>f'  - {x}'\<close> of one element of a list field.\<close>

definition item_line :: "(yaml_value \<Rightarrow> string) \<Rightarrow> yaml_value \<Rightarrow> string" where
  "item_line py_repr x = ''  - '' @ py_str py_repr x"

section \<open>Searching for a marker\<close>

lemma find_from_none:
  "find_from s sub start = - 1 \<longleftrightarrow> (\<forall>j\<ge>start. \<not> occurs_at s sub j)"
proof (induction s sub start rule: find_from.induct)
  case (1 s sub start)
  show ?case
  proof (cases "length s < start + length sub")
    case True
    then show ?thesis
      by (subst find_from.simps) (auto simp: occurs_at_def)
  next
    case short: False
    show ?thesis
    proof (cases "take (length sub) (drop start s) = sub")
      case True
      with short have "occurs_at s sub start" by (simp add: occurs_at_def)
      moreover from short True have "find_from s sub start = int start"
        by (subst find_from.simps) simp
      ultimately show ?thesis by auto
    next
      case False
      with short have eq: "find_from s sub start = find_from s sub (Suc start)"
        by (subst find_from.simps) simp
      from False have no: "\<not> occurs_at s sub start" by (simp add: occurs_at_def)
      have "(\<forall>j\<ge>start. \<not> occurs_at s sub j) \<longleftrightarrow> (\<forall>j\<ge>Suc start. \<not> occurs_at s sub j)"
        using no by (metis Suc_leD Suc_leI le_neq_implies_less)
      with 1 short False eq show ?thesis by simp
    qed
  qed
qed

lemma find_from_some:
  "find_from s sub start = int i \<longleftrightarrow>
     start \<le> i \<and> occurs_at s sub i \<and> (\<forall>j. start \<le> j \<and> j < i \<longrightarrow> \<not> occurs_at s sub j)"
proof (induction s sub start rule: find_from.induct)
  case (1 s sub start)
  show ?case
  proof (cases "length s < start + length sub")
    case True
    then have "find_from s sub start = - 1"
      by (subst find_from.simps) simp
    moreover from True have "\<And>k. start \<le> k \<Longrightarrow> \<not> occurs_at s sub k"
      by (auto simp: occurs_at_def)
    ultimately show ?thesis by auto
  next
    case short: False
    show ?thesis
    proof (cases "take (length sub) (drop start s) = sub")
      case True
      with short have occ: "occurs_at s sub start" by (simp add: occurs_at_def)
      from short True have "find_from s sub start = int start"
        by (subst find_from.simps) simp
      with occ show ?thesis
        by (auto simp: le_less)
    next
      case False
      with short have eq: "find_from s sub start = find_from s sub (Suc start)"
        by (subst find_from.simps) simp
      from False have no: "\<not> occurs_at s sub start" by (simp add: occurs_at_def)
      have "(start \<le> i \<and> occurs_at s sub i \<and> (\<forall>j. start \<le> j \<and> j < i \<longrightarrow> \<not> occurs_at s sub j))
        \<longleftrightarrow> (Suc start \<le> i \<and> occurs_at s sub i \<and> (\<forall>j. Suc start \<le> j \<and> j < i \<longrightarrow> \<not> occurs_at s sub j))"
        using no by (metis Suc_leD Suc_leI le_neq_implies_less)
      with 1 short False eq show ?thesis by simp
    qed
  qed
qed

lemma find_from_range:
  "find_from s sub start = - 1 \<or> int start \<le> find_from s sub start"
  by (induction s sub start rule: find_from.induct)
     (subst (1 2) find_from.simps, auto)

lemma occurs_at_sublist: "occurs_at s sub j \<Longrightarrow> sublist sub s"
proof -
  assume a: "occurs_at s sub j"
  have "s = take j s @ take (length sub) (drop j s) @ drop (length sub) (drop j s)"
    by (metis append_take_drop_id)
  with a have "s = take j s @ sub @ drop (length sub) (drop j s)"
    by (simp add: occurs_at_def)
  then show ?thesis unfolding sublist_def by blast
qed

lemma occurs_at_append: "occurs_at (pre @ sub @ rest) sub (length pre)"
  by (simp add: occurs_at_def)

lemma occurs_at_shift:
  "occurs_at (pre @ t) sub (length pre + k) \<longleftrightarrow> occurs_at t sub k"
  by (simp add: occurs_at_def)

lemma occurs_at_take:
  "j + length sub \<le> n \<Longrightarrow> occurs_at s sub j \<Longrightarrow> occurs_at (take n s) sub j"
  by (auto simp: occurs_at_def drop_take min_def)

lemma find_from_not_sublist: "\<not> sublist sub s \<Longrightarrow> find_from s sub k = - 1"
  using occurs_at_sublist by (auto simp: find_from_none)

text \<open>The first occurrence of a marker: no occurrence begins before the prefix ends.\<close>

lemma find_from_first:
  assumes "\<not> sublist sub (pre @ butlast sub)" and "sub \<noteq> []"
  shows "find_from (pre @ sub @ rest) sub 0 = int (length pre)"
proof -
  have "\<not> occurs_at (pre @ sub @ rest) sub j" if "j < length pre" for j
  proof
    assume occ: "occurs_at (pre @ sub @ rest) sub j"
    let ?n = "length pre + (length sub - 1)"
    from that assms(2) have le: "j + length sub \<le> ?n"
      by (cases sub) auto
    have "take ?n (pre @ sub @ rest) = pre @ butlast sub"
      using assms(2) by (simp add: butlast_conv_take)
    with occurs_at_take [OF le occ] have "occurs_at (pre @ butlast sub) sub j"
      by simp
    with assms(1) show False
      using occurs_at_sublist by blast
  qed
  then show ?thesis
    by (simp add: find_from_some occurs_at_append)
qed

lemma occurs_at_shift_minus:
  "length pre \<le> j \<Longrightarrow> occurs_at (pre @ t) sub j \<longleftrightarrow> occurs_at t sub (j - length pre)"
  using occurs_at_shift [of pre t sub "j - length pre"] by simp

lemma find_from_shift:
  "find_from (pre @ t) sub (length pre + k) =
     (if find_from t sub k = - 1 then - 1 else int (length pre) + find_from t sub k)"
proof (cases "find_from t sub k = - 1")
  case True
  then have none: "\<forall>j\<ge>k. \<not> occurs_at t sub j"
    by (simp add: find_from_none)
  have "\<not> occurs_at (pre @ t) sub j" if "length pre + k \<le> j" for j
  proof -
    from that have "length pre \<le> j" and "k \<le> j - length pre" by arith+
    with none show ?thesis
      by (simp add: occurs_at_shift_minus)
  qed
  then have "find_from (pre @ t) sub (length pre + k) = - 1"
    by (simp add: find_from_none)
  with True show ?thesis by simp
next
  case False
  with find_from_range [of t sub k] have "0 \<le> find_from t sub k"
    by linarith
  then obtain i where i: "find_from t sub k = int i"
    using nonneg_int_cases by blast
  then have c: "k \<le> i" "occurs_at t sub i" "\<forall>j. k \<le> j \<and> j < i \<longrightarrow> \<not> occurs_at t sub j"
    by (simp_all add: find_from_some)
  have "\<not> occurs_at (pre @ t) sub j" if "length pre + k \<le> j" "j < length pre + i" for j
  proof -
    from that have "length pre \<le> j" and "k \<le> j - length pre" and "j - length pre < i"
      by arith+
    with c(3) show ?thesis
      by (simp add: occurs_at_shift_minus)
  qed
  with c(1,2) have "find_from (pre @ t) sub (length pre + k) = int (length pre + i)"
    unfolding find_from_some by (simp add: occurs_at_shift)
  with i False show ?thesis by simp
qed

lemma py_find_nat: "py_find s sub (int k) = find_from s sub k"
  by (simp add: py_find_def)

lemma py_find_zero: "py_find s sub 0 = find_from s sub 0"
  by (simp add: py_find_def)

lemma sublist_occurs: "sublist sub s \<Longrightarrow> \<exists>j. occurs_at s sub j"
  unfolding sublist_def using occurs_at_append by blast

lemma occurs_at_take_back:
  "occurs_at (take n s) sub j \<Longrightarrow> occurs_at s sub j"
  by (auto simp: occurs_at_def drop_take min_def split: if_splits)

lemma occurs_at_drop:
  assumes "k \<le> length s"
  shows "occurs_at (drop k s) sub j \<longleftrightarrow> occurs_at s sub (k + j)"
proof -
  have "occurs_at (take k s @ drop k s) sub (length (take k s) + j) \<longleftrightarrow> occurs_at (drop k s) sub j"
    by (rule occurs_at_shift)
  with assms show ?thesis by simp
qed

lemma take_upto_butlast:
  "u = m @ sub @ r \<Longrightarrow> sub \<noteq> [] \<Longrightarrow>
     take (length m + (length sub - 1)) u = m @ butlast sub"
  by (simp add: butlast_conv_take)

text \<open>Where a search succeeds, the text splits at the first occurrence.\<close>

lemma first_occurrence_split:
  assumes "find_from s sub k = int i" and "sub \<noteq> []"
  shows "\<exists>mid rest. drop k s = mid @ sub @ rest \<and> k + length mid = i \<and>
           \<not> sublist sub (mid @ butlast sub)"
proof -
  from assms(1) have c: "k \<le> i" "occurs_at s sub i"
    "\<forall>j. k \<le> j \<and> j < i \<longrightarrow> \<not> occurs_at s sub j"
    by (simp_all add: find_from_some)
  from c(2) have len: "i + length sub \<le> length s" and occ: "take (length sub) (drop i s) = sub"
    by (simp_all add: occurs_at_def)
  let ?mid = "take (i - k) (drop k s)"
  let ?rest = "drop (length sub) (drop i s)"
  have "drop k s = ?mid @ drop (i - k) (drop k s)"
    by (simp only: append_take_drop_id)
  also have "drop (i - k) (drop k s) = drop i s"
    using c(1) by simp
  also have "drop i s = take (length sub) (drop i s) @ ?rest"
    by (simp only: append_take_drop_id)
  finally have split: "drop k s = ?mid @ sub @ ?rest"
    using occ by simp
  have lmid: "k + length ?mid = i"
    using c(1) len by simp
  have "\<not> sublist sub (?mid @ butlast sub)"
  proof
    assume "sublist sub (?mid @ butlast sub)"
    then obtain j where j: "occurs_at (?mid @ butlast sub) sub j"
      using sublist_occurs by blast
    then have "j + length sub \<le> length ?mid + (length sub - 1)"
      by (simp add: occurs_at_def)
    with assms(2) have "j < length ?mid"
      by (cases sub) auto
    with lmid have bound: "k + j < i" by simp
    have "take (length ?mid + (length sub - 1)) (drop k s) = ?mid @ butlast sub"
      using split assms(2) by (rule take_upto_butlast)
    with j have "occurs_at (take (length ?mid + (length sub - 1)) (drop k s)) sub j"
      by simp
    then have "occurs_at (drop k s) sub j"
      by (rule occurs_at_take_back)
    moreover have "k \<le> length s" using c(1) len by simp
    ultimately have "occurs_at s sub (k + j)"
      by (simp add: occurs_at_drop)
    with c(3) bound show False by simp
  qed
  with split lmid show ?thesis by blast
qed

lemma find_from_none_not_sublist: "find_from s sub 0 = - 1 \<Longrightarrow> \<not> sublist sub s"
  using sublist_occurs by (fastforce simp: find_from_none)

section \<open>The fallback of the splitter\<close>

lemma parse_no_open:
  assumes "\<not> sublist ''```yaml'' t"
  shows "parse_claude_response safe_load t = (YMap [], t)"
  using assms by (simp add: parse_claude_response_def py_find_zero find_from_not_sublist Let_def)

lemma find_from_after:
  "find_from (pre @ mk @ t) sub (length pre + length mk) =
     (if find_from t sub 0 = - 1 then - 1 else int (length pre + length mk) + find_from t sub 0)"
  using find_from_shift [of "pre @ mk" t sub 0] by simp

lemma parse_no_close:
  assumes "\<not> sublist ''```yaml'' (pre @ ''```yam'')" and "\<not> sublist ''```'' rest"
  shows "parse_claude_response safe_load (pre @ ''```yaml'' @ rest) = (YMap [], pre @ ''```yaml'' @ rest)"
proof -
  let ?t = "pre @ ''```yaml'' @ rest"
  have start: "py_find ?t ''```yaml'' 0 = int (length pre)"
    using assms(1) find_from_first [of "''```yaml''" pre rest] by (simp add: py_find_zero)
  have len: "length pre + 7 = length pre + length ''```yaml''"
    by simp
  have "find_from ?t ''```'' (length pre + length ''```yaml'') = - 1"
    using assms(2) by (subst find_from_after) (simp add: find_from_not_sublist)
  then have "find_from ?t ''```'' (length pre + 7) = - 1"
    by (simp only: len)
  then have "py_find ?t ''```'' (int (length pre + 7)) = - 1"
    by (simp only: py_find_nat)
  then have "py_find ?t ''```'' (int (length pre) + 7) = - 1"
    by (simp only: of_nat_add of_nat_numeral)
  with start show ?thesis
    by (simp add: parse_claude_response_def Let_def)
qed

text \<open>
  Every response on which one of the two searches fails has one of the two shapes of the
  fallback.
\<close>

lemma fallback_decomposition:
  assumes "py_find t ''```yaml'' 0 = - 1 \<or> py_find t ''```'' (py_find t ''```yaml'' 0 + 7) = - 1"
  shows "\<not> sublist ''```yaml'' t \<or>
         (\<exists>pre rest. t = pre @ ''```yaml'' @ rest \<and>
            \<not> sublist ''```yaml'' (pre @ ''```yam'') \<and> \<not> sublist ''```'' rest)"
proof (cases "py_find t ''```yaml'' 0 = - 1")
  case True
  then show ?thesis
    by (simp add: py_find_zero find_from_none_not_sublist)
next
  case False
  then have nf: "find_from t ''```yaml'' 0 \<noteq> - 1"
    by (simp add: py_find_zero)
  with find_from_range [of t "''```yaml''" 0] have "0 \<le> find_from t ''```yaml'' 0"
    by linarith
  then obtain i where i: "find_from t ''```yaml'' 0 = int i"
    using nonneg_int_cases by blast
  from first_occurrence_split [OF i] obtain pre rest where
    p: "t = pre @ ''```yaml'' @ rest" "length pre = i"
       "\<not> sublist ''```yaml'' (pre @ butlast ''```yaml'')"
    by auto
  from assms False i have "py_find t ''```'' (int i + 7) = - 1"
    by (simp add: py_find_zero)
  moreover have "int i + 7 = int (i + 7)" by simp
  ultimately have "find_from t ''```'' (i + 7) = - 1"
    by (simp only: py_find_nat)
  moreover have "i + 7 = length pre + length ''```yaml''"
    using p(2) by simp
  ultimately have e: "find_from (pre @ ''```yaml'' @ rest) ''```'' (length pre + length ''```yaml'') = - 1"
    using p(1) by simp
  have "find_from rest ''```'' 0 = - 1"
  proof (rule ccontr)
    assume n: "find_from rest ''```'' 0 \<noteq> - 1"
    with find_from_range [of rest "''```''" 0] have "0 \<le> find_from rest ''```'' 0"
      by linarith
    moreover from e n have "int (length pre + length ''```yaml'') + find_from rest ''```'' 0 = - 1"
      by (simp only: find_from_after if_False)
    ultimately show False by linarith
  qed
  then have "\<not> sublist ''```'' rest"
    by (rule find_from_none_not_sublist)
  moreover from p(3) have "\<not> sublist ''```yaml'' (pre @ ''```yam'')" by simp
  ultimately show ?thesis using p(1) by blast
qed

text \<open>
  Claim C3, as amended. When the opening marker \<open>```yaml\<close> does not occur in the response,
  or occurs first after \<open>pre\<close> with no closing marker \<open>```\<close> in the text that follows it,
  \<open>parse_claude_response\<close> returns the empty mapping and the whole response text as it is:
  the text is returned untrimmed. The function is total, so nothing is raised.
\<close>

theorem parse_claude_response_marker_absent:
  "(\<not> sublist ''```yaml'' t \<longrightarrow> parse_claude_response safe_load t = (YMap [], t)) \<and>
   (\<not> sublist ''```yaml'' (pre @ ''```yam'') \<and> \<not> sublist ''```'' rest \<longrightarrow>
      parse_claude_response safe_load (pre @ ''```yaml'' @ rest)
        = (YMap [], pre @ ''```yaml'' @ rest))"
  using parse_no_open parse_no_close by blast

theorem parse_claude_response_marker_absent_witness:
  "parse_claude_response (\<lambda>s. Inl YAMLError) '' hello '' = (YMap [], '' hello '') \<and>
   parse_claude_response (\<lambda>s. Inl YAMLError) (''``` a '' @ ''```yaml'' @ '' b'')
     = (YMap [], ''``` a '' @ ''```yaml'' @ '' b'')"
proof -
  have a: "\<not> sublist ''```yaml'' '' hello ''" by code_simp
  have b: "\<not> sublist ''```yaml'' (''``` a '' @ ''```yam'')" by code_simp
  have c: "\<not> sublist ''```'' '' b''" by code_simp
  show ?thesis
    using parse_claude_response_marker_absent
      [of "'' hello ''" "\<lambda>s. Inl YAMLError" "''``` a ''" "'' b''"] a b c
    by blast
qed

text \<open>
  The claim as stated asks for the trimmed text. For the response \<open>" hello "\<close>, which has
  no marker, the body returned keeps its blanks.
\<close>

theorem parse_claude_response_fallback_untrimmed:
  "\<not> sublist ''```yaml'' '' hello '' \<and>
   snd (parse_claude_response (\<lambda>s. Inl YAMLError) '' hello '') \<noteq> py_strip '' hello ''"
proof -
  have a: "\<not> sublist ''```yaml'' '' hello ''" by code_simp
  have b: "parse_claude_response (\<lambda>s. Inl YAMLError) '' hello '' = (YMap [], '' hello '')"
    by code_simp
  have c: "py_strip '' hello '' = ''hello''" by code_simp
  show ?thesis using a b c by simp
qed

section \<open>A response with a fenced block\<close>




text \<open>
  Every response on which both searches of \<open>parse_claude_response\<close> succeed has the shape
  that \<open>parse_fenced\<close> assumes.
\<close>

lemma fenced_decomposition:
  assumes "py_find t ''```yaml'' 0 = int i" and "py_find t ''```'' (int i + 7) = int j"
  shows "\<exists>pre block rest.
           t = pre @ ''```yaml'' @ block @ ''```'' @ rest \<and>
           \<not> sublist ''```yaml'' (pre @ ''```yam'') \<and>
           \<not> sublist ''```'' (block @ ''``'')"
proof -
  from assms(1) have "find_from t ''```yaml'' 0 = int i"
    by (simp add: py_find_zero)
  from first_occurrence_split [OF this] obtain pre r1 where
    p: "t = pre @ ''```yaml'' @ r1" "length pre = i" "\<not> sublist ''```yaml'' (pre @ butlast ''```yaml'')"
    by auto
  have "int i + 7 = int (i + 7)" by simp
  with assms(2) have "find_from t ''```'' (i + 7) = int j"
    by (simp only: py_find_nat)
  from first_occurrence_split [OF this] obtain block rest where
    b: "drop (i + 7) t = block @ ''```'' @ rest" "\<not> sublist ''```'' (block @ butlast ''```'')"
    by auto
  have "drop (i + 7) t = r1"
    using p(1,2) by simp
  with b(1) p(1) have "t = pre @ ''```yaml'' @ block @ ''```'' @ rest"
    by simp
  moreover from p(3) have "\<not> sublist ''```yaml'' (pre @ ''```yam'')" by simp
  moreover from b(2) have "\<not> sublist ''```'' (block @ ''``'')" by simp
  ultimately show ?thesis by blast
qed





section \<open>The source label of a path\<close>

lemma length_five:
  "length ys = 5 \<Longrightarrow> \<exists>a b c d e. ys = [a, b, c, d, e]"
  by (auto simp: length_Suc_conv eval_nat_numeral)

lemma last_five:
  assumes "5 \<le> length xs"
  shows "\<exists>front a b c d e. xs = front @ [a, b, c, d, e]"
proof -
  let ?n = "length xs - 5"
  have "length (drop ?n xs) = 5" using assms by simp
  then obtain a b c d e where "drop ?n xs = [a, b, c, d, e]"
    using length_five by blast
  then have "xs = take ?n xs @ [a, b, c, d, e]"
    by (metis append_take_drop_id)
  then show ?thesis by blast
qed

lemma label_of_last_five:
  assumes "parts p = front @ [archive, collection, box, folder, file]"
  shows "parse_source_from_path p
           = folder @ '', '' @ box @ '', '' @ collection @ '', '' @ archive"
  using assms
  by (simp add: parse_source_from_path_def py_nth_def Let_def nth_append nat_add_distrib)

text \<open>
  Claim C5. A path with at least five parts ends in five parts \<open>archive\<close>, \<open>collection\<close>,
  \<open>box\<close>, \<open>folder\<close> and the file name, at the positions \<open>-5\<close> to \<open>-1\<close>, and
  \<open>parse_source_from_path\<close> returns the label \<open>folder, box, collection, archive\<close>. A path
  with fewer than five parts gives the string form of its parent directory. The two
  paths of the specification, \<open>/root/Archive/Collection/Box1/FolderA/doc.pdf\<close> and
  \<open>/doc.pdf\<close>, are evaluated after the theorem.
\<close>

theorem parse_source_from_path_label:
  "(5 \<le> length (parts p) \<longrightarrow>
      (\<exists>front archive collection box folder file.
         parts p = front @ [archive, collection, box, folder, file] \<and>
         parse_source_from_path p
           = folder @ '', '' @ box @ '', '' @ collection @ '', '' @ archive)) \<and>
   (length (parts p) < 5 \<longrightarrow> parse_source_from_path p = path_str (parent p))"
proof (intro conjI impI)
  assume "5 \<le> length (parts p)"
  then obtain front a b c d e where "parts p = front @ [a, b, c, d, e]"
    using last_five by blast
  then show "\<exists>front archive collection box folder file.
         parts p = front @ [archive, collection, box, folder, file] \<and>
         parse_source_from_path p
           = folder @ '', '' @ box @ '', '' @ collection @ '', '' @ archive"
    using label_of_last_five by blast
next
  assume "length (parts p) < 5"
  then show "parse_source_from_path p = path_str (parent p)"
    by (simp add: parse_source_from_path_def)
qed

theorem parse_source_from_path_label_witness:
  "parse_source_from_path
     \<lparr>root = ''/'', names = [''root'', ''Archive'', ''Collection'', ''Box1'', ''FolderA'', ''doc.pdf'']\<rparr>
     = ''FolderA, Box1, Collection, Archive'' \<and>
   parse_source_from_path \<lparr>root = ''/'', names = [''doc.pdf'']\<rparr> = ''/''"
proof -
  let ?p = "\<lparr>root = ''/'', names = [''root'', ''Archive'', ''Collection'', ''Box1'', ''FolderA'', ''doc.pdf'']\<rparr>"
  let ?q = "\<lparr>root = ''/'', names = [''doc.pdf'']\<rparr>"
  have parts_p: "parts ?p = [''/'', ''root''] @ [''Archive'', ''Collection'', ''Box1'', ''FolderA'', ''doc.pdf'']"
    by (simp add: parts_def)
  then have "5 \<le> length (parts ?p)" by simp
  with parse_source_from_path_label [of ?p]
  obtain front archive collection box folder fname where
    eq: "parts ?p = front @ [archive, collection, box, folder, fname]" and
    lab: "parse_source_from_path ?p = folder @ '', '' @ box @ '', '' @ collection @ '', '' @ archive"
    by blast
  from eq parts_p have
    "front @ [archive, collection, box, folder, fname]
       = [''/'', ''root''] @ [''Archive'', ''Collection'', ''Box1'', ''FolderA'', ''doc.pdf'']"
    by simp
  then have "[archive, collection, box, folder, fname]
       = [''Archive'', ''Collection'', ''Box1'', ''FolderA'', ''doc.pdf'']"
    by (subst (asm) append_eq_append_conv) simp_all
  with lab have first: "parse_source_from_path ?p = ''FolderA, Box1, Collection, Archive''"
    by simp
  have "length (parts ?q) < 5" by (simp add: parts_def)
  with parse_source_from_path_label [of ?q]
  have "parse_source_from_path ?q = path_str (parent ?q)" by blast
  moreover have "path_str (parent ?q) = ''/''"
    by (simp add: path_str_def parent_def)
  ultimately show ?thesis using first by simp
qed

text \<open>
  Claim C10. An absolute path with exactly five parts is its root followed by three
  directory names and the file name. \<open>parse_source_from_path\<close> does not fall back to the
  parent directory: it returns the four-part label, whose last component, the archive, is
  the root of the path itself, \<open>/\<close> for a path that begins with a single slash.
\<close>

theorem parse_source_from_path_root_as_archive:
  assumes "root p \<noteq> []" and "length (parts p) = 5"
  shows "\<exists>a b c file.
           parts p = [root p, a, b, c, file] \<and>
           parse_source_from_path p = c @ '', '' @ b @ '', '' @ a @ '', '' @ root p \<and>
           parse_source_from_path p \<noteq> path_str (parent p)"
proof -
  from assms have "length (names p) = 4"
    by (simp add: parts_def)
  then obtain a b c fname where n: "names p = [a, b, c, fname]"
    by (auto simp: length_Suc_conv eval_nat_numeral)
  with assms(1) have ps: "parts p = [] @ [root p, a, b, c, fname]"
    by (simp add: parts_def)
  then have lab: "parse_source_from_path p = c @ '', '' @ b @ '', '' @ a @ '', '' @ root p"
    by (rule label_of_last_five)
  have "length (parse_source_from_path p) \<noteq> length (path_str (parent p))"
    using n assms(1) by (simp add: lab path_str_def parent_def)
  then have "parse_source_from_path p \<noteq> path_str (parent p)"
    by auto
  with ps lab show ?thesis by simp
qed

theorem parse_source_from_path_root_as_archive_witness:
  "parse_source_from_path \<lparr>root = ''/'', names = [''a'', ''b'', ''c'', ''doc.pdf'']\<rparr> = ''c, b, a, /'' \<and>
   parse_source_from_path \<lparr>root = ''/'', names = [''a'', ''b'', ''c'', ''doc.pdf'']\<rparr>
     \<noteq> path_str (parent \<lparr>root = ''/'', names = [''a'', ''b'', ''c'', ''doc.pdf'']\<rparr>)"
proof -
  let ?p = "\<lparr>root = ''/'', names = [''a'', ''b'', ''c'', ''doc.pdf'']\<rparr>"
  have r: "root ?p \<noteq> []" by simp
  have l: "length (parts ?p) = 5" by (simp add: parts_def)
  from parse_source_from_path_root_as_archive [OF r l]
  obtain a b c fname where
    eq: "parts ?p = [root ?p, a, b, c, fname]" and
    lab: "parse_source_from_path ?p = c @ '', '' @ b @ '', '' @ a @ '', '' @ root ?p" and
    ne: "parse_source_from_path ?p \<noteq> path_str (parent ?p)"
    by blast
  from eq have "a = ''a'' \<and> b = ''b'' \<and> c = ''c''"
    by (simp add: parts_def)
  with lab have "parse_source_from_path ?p = ''c, b, a, /''" by simp
  with ne show ?thesis by simp
qed

section \<open>The counters of a batch\<close>






lemma process_result_no_content:
  "result r = Succeeded [] \<Longrightarrow>
     process_result safe_load py_repr clock st r = st\<lparr>failed := failed st + 1\<rparr>"
  by (simp add: process_result_def Let_def)

lemma process_batch_results_split:
  "process_batch_results safe_load py_repr clock (before @ r # after) files0
     = foldl (process_result safe_load py_repr clock)
         (process_result safe_load py_repr clock
            (process_batch_results safe_load py_repr clock before files0) r)
         after"
  by (simp add: process_batch_results_def)



text \<open>
  Claim C9. An item whose result is \<open>succeeded\<close> but whose content list is empty adds one
  to \<open>failed\<close>, writes no file, and the loop goes on with the items after it.
\<close>

theorem process_batch_results_empty_content:
  "result r = Succeeded [] \<longrightarrow>
     process_result safe_load py_repr clock st r = st\<lparr>failed := failed st + 1\<rparr> \<and>
     process_batch_results safe_load py_repr clock (before @ r # after) files0
       = foldl (process_result safe_load py_repr clock)
           ((process_batch_results safe_load py_repr clock before files0)
              \<lparr>failed := failed (process_batch_results safe_load py_repr clock before files0) + 1\<rparr>)
           after"
  using process_result_no_content [of r safe_load py_repr clock]
    process_batch_results_split [of safe_load py_repr clock before r after files0]
  by simp

theorem process_batch_results_empty_content_witness:
  "succeeded (process_batch_results (\<lambda>s. Inl YAMLError) (\<lambda>v. []) (\<lambda>n. ''April 05, 2025'')
       [\<lparr>custom_id = Some ''a'', result = Succeeded [TextBlock ''hi'']\<rparr>,
        \<lparr>custom_id = Some ''b'', result = Succeeded []\<rparr>,
        \<lparr>custom_id = Some ''c'', result = Succeeded [TextBlock ''ho'']\<rparr>] Map.empty)
     + failed (process_batch_results (\<lambda>s. Inl YAMLError) (\<lambda>v. []) (\<lambda>n. ''April 05, 2025'')
       [\<lparr>custom_id = Some ''a'', result = Succeeded [TextBlock ''hi'']\<rparr>,
        \<lparr>custom_id = Some ''b'', result = Succeeded []\<rparr>,
        \<lparr>custom_id = Some ''c'', result = Succeeded [TextBlock ''ho'']\<rparr>] Map.empty) = 3 \<and>
   process_result (\<lambda>s. Inl YAMLError) (\<lambda>v. []) (\<lambda>n. ''April 05, 2025'')
       \<lparr>succeeded = 0, failed = 0, files = Map.empty\<rparr>
       \<lparr>custom_id = Some ''b'', result = Succeeded []\<rparr>
     = \<lparr>succeeded = 0, failed = 0, files = Map.empty\<rparr>\<lparr>failed := 1\<rparr> \<and>
   succeeded (process_batch_results (\<lambda>s. Inl YAMLError) (\<lambda>v. []) (\<lambda>n. ''April 05, 2025'')
       [\<lparr>custom_id = Some ''a'', result = Succeeded [TextBlock ''hi'']\<rparr>,
        \<lparr>custom_id = Some ''b'', result = Succeeded []\<rparr>,
        \<lparr>custom_id = Some ''c'', result = Succeeded [TextBlock ''ho'']\<rparr>] Map.empty) = 2 \<and>
   failed (process_batch_results (\<lambda>s. Inl YAMLError) (\<lambda>v. []) (\<lambda>n. ''April 05, 2025'')
       [\<lparr>custom_id = Some ''a'', result = Succeeded [TextBlock ''hi'']\<rparr>,
        \<lparr>custom_id = Some ''b'', result = Succeeded []\<rparr>,
        \<lparr>custom_id = Some ''c'', result = Succeeded [TextBlock ''ho'']\<rparr>] Map.empty) = 1 \<and>
   files (process_batch_results (\<lambda>s. Inl YAMLError) (\<lambda>v. []) (\<lambda>n. ''April 05, 2025'')
       [\<lparr>custom_id = Some ''a'', result = Succeeded [TextBlock ''hi'']\<rparr>,
        \<lparr>custom_id = Some ''b'', result = Succeeded []\<rparr>,
        \<lparr>custom_id = Some ''c'', result = Succeeded [TextBlock ''ho'']\<rparr>] Map.empty) ''b.md'' = None \<and>
   files (process_batch_results (\<lambda>s. Inl YAMLError) (\<lambda>v. []) (\<lambda>n. ''April 05, 2025'')
       [\<lparr>custom_id = Some ''a'', result = Succeeded [TextBlock ''hi'']\<rparr>,
        \<lparr>custom_id = Some ''b'', result = Succeeded []\<rparr>,
        \<lparr>custom_id = Some ''c'', result = Succeeded [TextBlock ''ho'']\<rparr>] Map.empty) ''c.md'' \<noteq> None"
proof -
  let ?bad = "\<lparr>custom_id = Some ''b'', result = Succeeded []\<rparr>"
  let ?results = "[\<lparr>custom_id = Some ''a'', result = Succeeded [TextBlock ''hi'']\<rparr>, ?bad, \<lparr>custom_id = Some ''c'', result = Succeeded [TextBlock ''ho'']\<rparr>]"
  let ?S = "process_batch_results (\<lambda>s. Inl YAMLError) (\<lambda>v. []) (\<lambda>n. ''April 05, 2025'') ?results Map.empty"
  let ?init = "\<lparr>succeeded = 0, failed = 0, files = Map.empty\<rparr>"
  have kind: "result ?bad = Succeeded []" by simp
  have step: "process_result (\<lambda>s. Inl YAMLError) (\<lambda>v. []) (\<lambda>n. ''April 05, 2025'') ?init ?bad = ?init\<lparr>failed := 1\<rparr>"
    using process_batch_results_empty_content [of ?bad "(\<lambda>s. Inl YAMLError)" "(\<lambda>v. [])" "(\<lambda>n. ''April 05, 2025'')" ?init] kind
    by simp
  have total: "succeeded ?S + failed ?S = 3"
    by code_simp
  have s: "succeeded ?S = 2" by code_simp
  have f: "files ?S ''b.md'' = None" by code_simp
  have g: "files ?S ''c.md'' \<noteq> None" by code_simp
  from total s have "failed ?S = 1" by simp
  with step total s f g show ?thesis by simp
qed

section \<open>Building the requests\<close>

lemma prepare_batch_requests_cong:
  "(\<forall>p\<in>set pdf_files. fs1 p = fs2 p) \<Longrightarrow>
     prepare_batch_requests model fs1 pdf_files = prepare_batch_requests model fs2 pdf_files"
  by (induction pdf_files) (simp_all add: encode_pdf_def Let_def split: option.split sum.split)

lemma prepare_batch_requests_ids:
  "prepare_batch_requests model fs pdf_files = Inr requests \<Longrightarrow>
     map req_custom_id requests = map stem pdf_files"
proof (induction pdf_files arbitrary: requests)
  case Nil
  then show ?case by simp
next
  case (Cons p ps)
  then show ?case
    by (auto simp: Let_def split: sum.splits)
qed

lemma prepare_batch_requests_total:
  "(\<forall>p\<in>set pdf_files. fs p \<noteq> None) \<Longrightarrow>
     \<exists>requests. prepare_batch_requests model fs pdf_files = Inr requests"
  by (induction pdf_files) (auto simp: encode_pdf_def Let_def)

lemma py_rfind_last_dot:
  assumes "c \<notin> set ext"
  shows "py_rfind (base @ [c] @ ext) c = int (length base)"
proof -
  have "dropWhile (\<lambda>x. x \<noteq> c) (rev ext @ c # rev base) = dropWhile (\<lambda>x. x \<noteq> c) (c # rev base)"
    using assms by (intro dropWhile_append2) auto
  then have "dropWhile (\<lambda>x. x \<noteq> c) (rev (base @ [c] @ ext)) = c # rev base"
    by simp
  then show ?thesis
    unfolding py_rfind_def by simp
qed

lemma stem_base:
  assumes "name p = base @ ''.'' @ ext" and "base \<noteq> []" and "ext \<noteq> []"
    and "CHR ''.'' \<notin> set ext"
  shows "stem p = base"
proof -
  have "py_rfind (name p) CHR ''.'' = int (length base)"
    using assms(1,4) py_rfind_last_dot [of "CHR ''.''" ext base] by simp
  with assms(1,2,3) show ?thesis
    by (simp add: stem_def Let_def)
qed

text \<open>
  Claim C8. The requests are a function of the model name, the list of paths and the
  contents of the listed files: two runs on file systems that agree on the listed files
  give the same result, and when every listed file can be read the result is a list of
  requests. The identifier of each request is the stem of its path, in the order of the
  paths; for a file name \<open>base.ext\<close> whose extension has no further dot, the stem is
  \<open>base\<close>.
\<close>

theorem prepare_batch_requests_deterministic:
  "((\<forall>p\<in>set pdf_files. fs1 p = fs2 p) \<longrightarrow>
      prepare_batch_requests model fs1 pdf_files = prepare_batch_requests model fs2 pdf_files) \<and>
   ((\<forall>p\<in>set pdf_files. fs1 p \<noteq> None) \<longrightarrow>
      (\<exists>requests. prepare_batch_requests model fs1 pdf_files = Inr requests)) \<and>
   (prepare_batch_requests model fs1 pdf_files = Inr requests \<longrightarrow>
      map req_custom_id requests = map stem pdf_files) \<and>
   (name pdf_path = base @ ''.'' @ ext \<and> base \<noteq> [] \<and> ext \<noteq> [] \<and> CHR ''.'' \<notin> set ext \<longrightarrow>
      stem pdf_path = base)"
proof (intro conjI impI)
  assume "\<forall>p\<in>set pdf_files. fs1 p = fs2 p"
  then show "prepare_batch_requests model fs1 pdf_files = prepare_batch_requests model fs2 pdf_files"
    by (rule prepare_batch_requests_cong)
next
  assume "\<forall>p\<in>set pdf_files. fs1 p \<noteq> None"
  then show "\<exists>requests. prepare_batch_requests model fs1 pdf_files = Inr requests"
    by (rule prepare_batch_requests_total)
next
  assume "prepare_batch_requests model fs1 pdf_files = Inr requests"
  then show "map req_custom_id requests = map stem pdf_files"
    by (rule prepare_batch_requests_ids)
next
  assume "name pdf_path = base @ ''.'' @ ext \<and> base \<noteq> [] \<and> ext \<noteq> [] \<and> CHR ''.'' \<notin> set ext"
  then show "stem pdf_path = base"
    using stem_base [of pdf_path base ext] by simp
qed

theorem prepare_batch_requests_deterministic_witness:
  "\<exists>requests.
     prepare_batch_requests ''claude-sonnet-4-5-20250929''
       [\<lparr>root = ''/'', names = [''in'', ''doc.pdf'']\<rparr> \<mapsto> ''Man'']
       [\<lparr>root = ''/'', names = [''in'', ''doc.pdf'']\<rparr>] = Inr requests \<and>
     prepare_batch_requests ''claude-sonnet-4-5-20250929''
       [\<lparr>root = ''/'', names = [''in'', ''doc.pdf'']\<rparr> \<mapsto> ''Man'',
        \<lparr>root = ''/'', names = [''in'', ''other.pdf'']\<rparr> \<mapsto> ''abc'']
       [\<lparr>root = ''/'', names = [''in'', ''doc.pdf'']\<rparr>] = Inr requests \<and>
     map req_custom_id requests = [''doc'']"
proof -
  let ?p = "\<lparr>root = ''/'', names = [''in'', ''doc.pdf'']\<rparr>"
  let ?q = "\<lparr>root = ''/'', names = [''in'', ''other.pdf'']\<rparr>"
  let ?fs1 = "[?p \<mapsto> ''Man'']"
  let ?fs2 = "[?p \<mapsto> ''Man'', ?q \<mapsto> ''abc'']"
  let ?m = "''claude-sonnet-4-5-20250929''"
  have same: "\<forall>p\<in>set [?p]. ?fs1 p = ?fs2 p" by simp
  have readable: "\<forall>p\<in>set [?p]. ?fs1 p \<noteq> None" by simp
  have nm: "name ?p = ''doc'' @ ''.'' @ ''pdf'' \<and> ''doc'' \<noteq> [] \<and> ''pdf'' \<noteq> [] \<and> CHR ''.'' \<notin> set ''pdf''"
    by (simp add: name_def)
  have "\<exists>requests. prepare_batch_requests ?m ?fs1 [?p] = Inr requests"
    using prepare_batch_requests_deterministic
            [of "[?p]" ?fs1 ?fs2 ?m, THEN conjunct2, THEN conjunct1] readable
    by (rule mp)
  then obtain requests where r: "prepare_batch_requests ?m ?fs1 [?p] = Inr requests" ..
  note T = prepare_batch_requests_deterministic [of "[?p]" ?fs1 ?fs2 ?m requests ?p "''doc''" "''pdf''"]
  have eq: "prepare_batch_requests ?m ?fs1 [?p] = prepare_batch_requests ?m ?fs2 [?p]"
    using T [THEN conjunct1] same by (rule mp)
  have ids: "map req_custom_id requests = map stem [?p]"
    using T [THEN conjunct2, THEN conjunct2, THEN conjunct1] r by (rule mp)
  have st: "stem ?p = ''doc''"
    using T [THEN conjunct2, THEN conjunct2, THEN conjunct2] nm by (rule mp)
  from ids st have c: "map req_custom_id requests = [''doc'']"
    by (simp only: list.map)
  from eq r have r2: "prepare_batch_requests ?m ?fs2 [?p] = Inr requests"
    by (simp only:)
  show ?thesis
  proof (rule exI [where x = requests], intro conjI)
    show "prepare_batch_requests ?m ?fs1 [?p] = Inr requests" by (rule r)
    show "prepare_batch_requests ?m ?fs2 [?p] = Inr requests" by (rule r2)
    show "map req_custom_id requests = [''doc'']" by (rule c)
  qed
qed

section \<open>The header of a document\<close>

lemma item_lines_raises:
  "item_lines py_repr v = Inl e \<longleftrightarrow> not_iterable v \<and> e = TypeError"
  by (cases v) (auto simp: item_lines_def not_iterable_def)


lemma item_lines_list:
  "item_lines py_repr (YList xs) = Inr (map (item_line py_repr) xs)"
  by (simp add: item_lines_def item_line_def)


lemma dict_get_absent: "map_of d (YStr k) = None \<Longrightarrow> dict_get d k dflt = dflt"
  by (simp add: dict_get_def)

text \<open>The lines of the header, given the lines of the four list blocks.\<close>

lemma frontmatter_lines_blocks:
  assumes "item_lines py_repr (dict_get m ''people'' (YList [])) = Inr ps"
    and "item_lines py_repr (dict_get m ''organization'' (YList [])) = Inr os"
    and "item_lines py_repr (dict_get m ''locations'' (YList [])) = Inr ls"
    and "item_lines py_repr (dict_get m ''themes'' (YList [])) = Inr ts"
  shows "frontmatter_lines py_repr added m =
    Inr ([''---'',
          ''title: '' @ py_str py_repr (dict_get m ''title'' (YStr [])),
          (if truthy (dict_get m ''creator'' (YStr []))
           then ''creator: '' @ py_str py_repr (dict_get m ''creator'' (YStr [])) else ''creator:''),
          (if truthy (dict_get m ''publication'' (YStr []))
           then ''publication: '' @ py_str py_repr (dict_get m ''publication'' (YStr []))
           else ''publication:''),
          ''source: '' @ py_str py_repr (dict_get m ''source'' (YStr [])),
          (if truthy (dict_get m ''date'' (YStr []))
           then ''date: '' @ py_str py_repr (dict_get m ''date'' (YStr [])) else ''date:''),
          ''people:''] @ ps
         @ [''organization:''] @ os
         @ [''locations:''] @ ls
         @ [''themes:''] @ ts
         @ [''tags:'', ''  - to-do'', ''  - source/primary'', ''added: '' @ added,
            ''---\<newline>''])"
  using assms by (simp add: frontmatter_lines_def Let_def)



lemma map_item_line:
  "map (item_line py_repr) xs = map (\<lambda>x. ''  - '' @ py_str py_repr x) xs"
  by (simp add: item_line_def)




text \<open>
  Claim C7, as amended. The four list fields are read under the keys \<open>people\<close>,
  \<open>organization\<close>, \<open>locations\<close> and \<open>themes\<close>; a key that is absent reads as the empty list.
  When each of the four is a list, the header has, after its first six lines, the bare
  line of each key followed by one line \<open>"  - " + str(x)\<close> for each element \<open>x\<close> of its list,
  in the order of the list, and by no line when the list is empty.
\<close>

theorem create_obsidian_document_list_fields:
  assumes "dict_get m ''people'' (YList []) = YList ps"
    and "dict_get m ''organization'' (YList []) = YList os"
    and "dict_get m ''locations'' (YList []) = YList ls"
    and "dict_get m ''themes'' (YList []) = YList ts"
  shows "(\<exists>head. length head = 6 \<and>
           frontmatter_lines py_repr added m =
             Inr (head
                  @ [''people:''] @ map (\<lambda>x. ''  - '' @ py_str py_repr x) ps
                  @ [''organization:''] @ map (\<lambda>x. ''  - '' @ py_str py_repr x) os
                  @ [''locations:''] @ map (\<lambda>x. ''  - '' @ py_str py_repr x) ls
                  @ [''themes:''] @ map (\<lambda>x. ''  - '' @ py_str py_repr x) ts
                  @ [''tags:'', ''  - to-do'', ''  - source/primary'', ''added: '' @ added,
                     ''---\<newline>''])) \<and>
         (map_of m (YStr k) = None \<longrightarrow> dict_get m k (YList []) = YList [])"
proof -
  let ?head = "[''---'',
          ''title: '' @ py_str py_repr (dict_get m ''title'' (YStr [])),
          (if truthy (dict_get m ''creator'' (YStr []))
           then ''creator: '' @ py_str py_repr (dict_get m ''creator'' (YStr [])) else ''creator:''),
          (if truthy (dict_get m ''publication'' (YStr []))
           then ''publication: '' @ py_str py_repr (dict_get m ''publication'' (YStr []))
           else ''publication:''),
          ''source: '' @ py_str py_repr (dict_get m ''source'' (YStr [])),
          (if truthy (dict_get m ''date'' (YStr []))
           then ''date: '' @ py_str py_repr (dict_get m ''date'' (YStr [])) else ''date:'')]"
  have b: "item_lines py_repr (dict_get m ''people'' (YList [])) = Inr (map (item_line py_repr) ps)"
       "item_lines py_repr (dict_get m ''organization'' (YList [])) = Inr (map (item_line py_repr) os)"
       "item_lines py_repr (dict_get m ''locations'' (YList [])) = Inr (map (item_line py_repr) ls)"
       "item_lines py_repr (dict_get m ''themes'' (YList [])) = Inr (map (item_line py_repr) ts)"
    by (simp_all only: assms item_lines_list)
  have "frontmatter_lines py_repr added m =
             Inr (?head
                  @ [''people:''] @ map (\<lambda>x. ''  - '' @ py_str py_repr x) ps
                  @ [''organization:''] @ map (\<lambda>x. ''  - '' @ py_str py_repr x) os
                  @ [''locations:''] @ map (\<lambda>x. ''  - '' @ py_str py_repr x) ls
                  @ [''themes:''] @ map (\<lambda>x. ''  - '' @ py_str py_repr x) ts
                  @ [''tags:'', ''  - to-do'', ''  - source/primary'', ''added: '' @ added,
                     ''---\<newline>''])"
    using frontmatter_lines_blocks [OF b, of added] by (simp add: map_item_line)
  moreover have "length ?head = 6" by simp
  ultimately have "\<exists>head. length head = 6 \<and>
           frontmatter_lines py_repr added m =
             Inr (head
                  @ [''people:''] @ map (\<lambda>x. ''  - '' @ py_str py_repr x) ps
                  @ [''organization:''] @ map (\<lambda>x. ''  - '' @ py_str py_repr x) os
                  @ [''locations:''] @ map (\<lambda>x. ''  - '' @ py_str py_repr x) ls
                  @ [''themes:''] @ map (\<lambda>x. ''  - '' @ py_str py_repr x) ts
                  @ [''tags:'', ''  - to-do'', ''  - source/primary'', ''added: '' @ added,
                     ''---\<newline>''])"
    by (intro exI [where x = ?head] conjI)
  then show ?thesis
    by (simp add: dict_get_def)
qed

theorem create_obsidian_document_list_fields_witness:
  "\<exists>head. length head = 6 \<and>
     frontmatter_lines (\<lambda>v. []) ''April 05, 2025''
         [(YStr ''people'', YList [YStr ''[[Jane Doe]]'', YStr ''[[John Roe]]'']),
          (YStr ''themes'', YList [])]
       = Inr (head @ [''people:'', ''  - [[Jane Doe]]'', ''  - [[John Roe]]'',
                      ''organization:'', ''locations:'', ''themes:'',
                      ''tags:'', ''  - to-do'', ''  - source/primary'', ''added: April 05, 2025'',
                      ''---\<newline>''])"
proof -
  let ?m = "[(YStr ''people'', YList [YStr ''[[Jane Doe]]'', YStr ''[[John Roe]]'']),
             (YStr ''themes'', YList [])]"
  have a: "dict_get ?m ''people'' (YList []) = YList [YStr ''[[Jane Doe]]'', YStr ''[[John Roe]]'']"
    by code_simp
  have b: "dict_get ?m ''organization'' (YList []) = YList []" by code_simp
  have c: "dict_get ?m ''locations'' (YList []) = YList []" by code_simp
  have d: "dict_get ?m ''themes'' (YList []) = YList []" by code_simp
  from create_obsidian_document_list_fields [OF a b c d, of "\<lambda>v. []" "''April 05, 2025''"]
  show ?thesis by simp
qed

text \<open>
  The claim as stated names the key \<open>organizations\<close>. A list under that key is not read:
  the header has no line \<open>organizations:\<close> and no line for the element.
\<close>

theorem frontmatter_lines_ignores_organizations:
  "frontmatter_lines (\<lambda>v. []) ''April 05, 2025''
       [(YStr ''organizations'', YList [YStr ''[[ACME]]''])]
     = Inr [''---'', ''title: '', ''creator:'', ''publication:'', ''source: '', ''date:'',
            ''people:'', ''organization:'', ''locations:'', ''themes:'',
            ''tags:'', ''  - to-do'', ''  - source/primary'', ''added: April 05, 2025'',
            ''---\<newline>''] \<and>
   frontmatter_lines (\<lambda>v. []) ''April 05, 2025''
       [(YStr ''organizations'', YList [YStr ''[[ACME]]''])]
     \<noteq> Inr [''---'', ''title: '', ''creator:'', ''publication:'', ''source: '', ''date:'',
            ''people:'', ''organizations:'', ''  - [[ACME]]'', ''locations:'', ''themes:'',
            ''tags:'', ''  - to-do'', ''  - source/primary'', ''added: April 05, 2025'',
            ''---\<newline>'']"
proof -
  have a: "frontmatter_lines (\<lambda>v. []) ''April 05, 2025''
       [(YStr ''organizations'', YList [YStr ''[[ACME]]''])]
     = Inr [''---'', ''title: '', ''creator:'', ''publication:'', ''source: '', ''date:'',
            ''people:'', ''organization:'', ''locations:'', ''themes:'',
            ''tags:'', ''  - to-do'', ''  - source/primary'', ''added: April 05, 2025'',
            ''---\<newline>'']"
    by code_simp
  show ?thesis
    unfolding a by simp
qed

end
